theory Spec2Isabelle
  imports Complex_Main "HOL-Library.Sublist" "HOL-Library.Monad_Syntax"
begin

section \<open>Strings and character classes\<close>

text \<open>
  A Python \<open>str\<close> is modelled as a \<open>string\<close>, one \<open>char\<close> per code point, which covers
  the code points below 256. The character classes are those of Python's \<open>re\<close> module
  on \<open>str\<close> patterns (Unicode matching), restricted to that range.
\<close>

definition is_space :: "char \<Rightarrow> bool" where
  \<comment> \<open>\<open>\s\<close> and \<open>str.strip()\<close>: tab to carriage return, the four separators, space, NEL, NBSP\<close>
  "is_space c =
     (let n = (of_char c :: nat)
      in (9 \<le> n \<and> n \<le> 13) \<or> (28 \<le> n \<and> n \<le> 32) \<or> n = 133 \<or> n = 160)"

definition is_digit :: "char \<Rightarrow> bool" where
  \<comment> \<open>\<open>\d\<close>: the decimal digits\<close>
  "is_digit c = (let n = (of_char c :: nat) in 48 \<le> n \<and> n \<le> 57)"

definition is_upper :: "char \<Rightarrow> bool" where
  \<comment> \<open>\<open>[A-Z]\<close>\<close>
  "is_upper c = (let n = (of_char c :: nat) in 65 \<le> n \<and> n \<le> 90)"

definition is_lower :: "char \<Rightarrow> bool" where
  \<comment> \<open>\<open>[a-z]\<close>\<close>
  "is_lower c = (let n = (of_char c :: nat) in 97 \<le> n \<and> n \<le> 122)"

definition is_word :: "char \<Rightarrow> bool" where
  \<comment> \<open>\<open>\w\<close>: alphanumeric (letters, digits and numeric characters of Latin-1) or underscore\<close>
  "is_word c =
     (let n = (of_char c :: nat)
      in is_digit c \<or> is_upper c \<or> is_lower c \<or> n = 95
         \<or> n = 170 \<or> n = 178 \<or> n = 179 \<or> n = 181 \<or> n = 185 \<or> n = 186
         \<or> (188 \<le> n \<and> n \<le> 190) \<or> (192 \<le> n \<and> n \<le> 214)
         \<or> (216 \<le> n \<and> n \<le> 246) \<or> 248 \<le> n)"

definition strip :: "string \<Rightarrow> string" where
  \<comment> \<open>\<open>str.strip()\<close>\<close>
  "strip s = rev (dropWhile is_space (rev (dropWhile is_space s)))"

definition truthy :: "string option \<Rightarrow> bool" where
  \<comment> \<open>truth value of \<open>d.get(key)\<close> for a string-valued key: absent, \<open>None\<close> and \<open>""\<close> are false\<close>
  "truthy v = (case v of None \<Rightarrow> False | Some s \<Rightarrow> s \<noteq> [])"

section \<open>Web content extraction (app/web\_content\_service.py)\<close>

text \<open>
  The dictionaries the strategies return. A key that is absent or holds \<open>None\<close> is
  \<open>None\<close> here; \<open>status\<close> is present in every result.
\<close>

record extraction_result =
  status :: string
  title :: "string option"
  result_text :: "string option"  \<comment> \<open>the key \<open>"text"\<close>\<close>
  summary :: "string option"
  result_keywords :: "string list option"  \<comment> \<open>the key \<open>"keywords"\<close>\<close>
  authors :: "string list option"
  publish_date :: "string option"
  top_image :: "string option"
  method_name :: "string option"  \<comment> \<open>the key \<open>"method"\<close>\<close>
  message :: "string option"

record parse_result =
  scheme :: string
  netloc :: string

datatype strategy = Trafilatura | Newspaper | BeautifulSoup

text \<open>
  What lies outside the repository: \<open>urllib.parse.urlparse\<close> (\<open>None\<close> when it raises)
  and, for each of the three strategies, the dictionary it returns for a URL after its
  own download and parsing.
\<close>

record web =
  urlparse :: "string \<Rightarrow> parse_result option"
  extract_with_trafilatura :: "string \<Rightarrow> extraction_result"
  extract_with_newspaper :: "string \<Rightarrow> extraction_result"
  extract_with_beautifulsoup :: "string \<Rightarrow> extraction_result"

definition is_valid_url :: "web \<Rightarrow> string \<Rightarrow> bool" where
  "is_valid_url w url =
     (case urlparse w url of
        None \<Rightarrow> False
      | Some result \<Rightarrow> scheme result \<noteq> [] \<and> netloc result \<noteq> [])"

definition error_result :: "string \<Rightarrow> extraction_result" where
  \<comment> \<open>\<open>{"status": "error", "message": msg}\<close>\<close>
  "error_result msg =
     \<lparr>status = ''error'', title = None, result_text = None, summary = None,
      result_keywords = None,
      authors = None, publish_date = None, top_image = None, method_name = None,
      message = Some msg\<rparr>"

definition has_text :: "extraction_result \<Rightarrow> bool" where
  \<comment> \<open>\<open>result["status"] == "success" and result.get("text")\<close>\<close>
  "has_text r = (status r = ''success'' \<and> truthy (result_text r))"

definition passes_gate :: "extraction_result \<Rightarrow> bool" where
  \<comment> \<open>\<open>... and len(result["text"]) > 200\<close>\<close>
  "passes_gate r =
     (has_text r \<and> (case result_text r of None \<Rightarrow> False | Some s \<Rightarrow> length s > 200))"

text \<open>
  \<open>extract_content\<close> returns the dictionary together with the strategies it has invoked,
  in the order of the calls.
\<close>

definition extract_content :: "web \<Rightarrow> string \<Rightarrow> extraction_result \<times> strategy list" where
  "extract_content w url =
     (if \<not> is_valid_url w url then (error_result ''Invalid URL format'', [])
      else
        let trafilatura_result = extract_with_trafilatura w url in
        if passes_gate trafilatura_result then (trafilatura_result, [Trafilatura])
        else
          let newspaper_result = extract_with_newspaper w url in
          if passes_gate newspaper_result
          then (newspaper_result, [Trafilatura, Newspaper])
          else
            let bs_result = extract_with_beautifulsoup w url;
                calls = [Trafilatura, Newspaper, BeautifulSoup] in
            if has_text bs_result then (bs_result, calls)
            else
              (case find has_text [trafilatura_result, newspaper_result, bs_result] of
                 Some result \<Rightarrow> (result, calls)
               | None \<Rightarrow>
                   (error_result
                      ''Failed to extract content from the URL using all available methods'',
                    calls)))"

section \<open>Text normalisation (sentiment\_analyzer.py)\<close>

text \<open>
  Matching \<open>\[\d+:\d+\]\<close> at the head of a string; the result is what follows the match.
  \<open>\d+\<close> takes every digit it finds: the character the pattern wants next is never a
  digit, so giving digits back cannot make a failed match succeed.
\<close>

definition expect :: "char \<Rightarrow> string \<Rightarrow> string option" where
  "expect c s = (case s of [] \<Rightarrow> None | x # xs \<Rightarrow> if x = c then Some xs else None)"

definition digits1 :: "string \<Rightarrow> string option" where
  "digits1 s =
     (case s of
        [] \<Rightarrow> None
      | x # xs \<Rightarrow> if is_digit x then Some (dropWhile is_digit xs) else None)"

definition match_timestamp :: "string \<Rightarrow> string option" where
  "match_timestamp s =
     expect CHR ''['' s \<bind> digits1 \<bind> expect CHR '':'' \<bind> digits1 \<bind> expect CHR '']''"

text \<open>\<open>re.sub(r'\[\d+:\d+\]', '', transcript)\<close>: the matches are found from left to right.\<close>

function remove_timestamps :: "string \<Rightarrow> string" where
  "remove_timestamps [] = []"
| "remove_timestamps (c # cs) =
     (case match_timestamp (c # cs) of
        Some rest \<Rightarrow> remove_timestamps rest
      | None \<Rightarrow> c # remove_timestamps cs)"
  by pat_completeness auto
termination
proof (relation "measure length")
  fix c cs rest
  assume m: "match_timestamp (c # cs) = Some rest"
  have e: "length r < length s" if "expect x s = Some r" for x s r
    using that by (auto simp: expect_def split: list.splits if_splits)
  have d: "length r < length s" if "digits1 s = Some r" for s r
    using that length_dropWhile_le [of is_digit "tl s"]
    by (auto simp: digits1_def split: list.splits if_splits)
  from m obtain s1 s2 s3 s4 where
    "expect CHR ''['' (c # cs) = Some s1" "digits1 s1 = Some s2"
    "expect CHR '':'' s2 = Some s3" "digits1 s3 = Some s4" "expect CHR '']'' s4 = Some rest"
    by (auto simp: match_timestamp_def split: bind_splits)
  then have "length rest < length (c # cs)"
    using e [of "CHR ''[''" "c # cs" s1] d [of s1 s2] e [of "CHR '':''" s2 s3]
      d [of s3 s4] e [of "CHR '']''" s4 rest]
    by linarith
  then show "(rest, c # cs) \<in> measure length" by simp
qed simp_all

text \<open>\<open>re.sub(r'\s+', ' ', cleaned_text)\<close>\<close>

function collapse_whitespace :: "string \<Rightarrow> string" where
  "collapse_whitespace [] = []"
| "collapse_whitespace (c # cs) =
     (if is_space c then CHR '' '' # collapse_whitespace (dropWhile is_space cs)
      else c # collapse_whitespace cs)"
  by pat_completeness auto
termination
  by (relation "measure length") (auto simp: length_dropWhile_le less_Suc_eq_le)

definition clean_transcript :: "string \<Rightarrow> string" where
  "clean_transcript transcript = strip (collapse_whitespace (remove_timestamps transcript))"

section \<open>Sentence segmentation (sentiment\_analyzer.py)\<close>

text \<open>
  Both splitting patterns look only behind the position they test, so each scan carries
  the text behind the position, last character first.

  The first pattern, \<open>(?<!\w\.\w.)(?<![A-Z][a-z]\.)(?<=\.|\?|\!)\s\<close>, matches one
  whitespace character; \<open>sentence_break\<close> is its three lookbehinds (\<open>.\<close> is any
  character but a newline).
\<close>

definition sentence_break :: "string \<Rightarrow> bool" where
  "sentence_break behind =
     (\<not> (case behind of
            d # c # b # a # _ \<Rightarrow> is_word a \<and> b = CHR ''.'' \<and> is_word c \<and> d \<noteq> CHR 0x0A
          | _ \<Rightarrow> False)
      \<and> \<not> (case behind of
              c # b # a # _ \<Rightarrow> is_upper a \<and> is_lower b \<and> c = CHR ''.''
            | _ \<Rightarrow> False)
      \<and> (case behind of
            c # _ \<Rightarrow> c = CHR ''.'' \<or> c = CHR ''?'' \<or> c = CHR ''!''
          | [] \<Rightarrow> False))"

text \<open>\<open>re.split\<close> with the first pattern: \<open>piece\<close> is the current piece, reversed.\<close>

fun split_sentences :: "string \<Rightarrow> string \<Rightarrow> string \<Rightarrow> string list" where
  "split_sentences behind piece [] = [rev piece]"
| "split_sentences behind piece (c # cs) =
     (if sentence_break behind \<and> is_space c
      then rev piece # split_sentences (c # behind) [] cs
      else split_sentences (c # behind) (c # piece) cs)"

text \<open>
  The second pattern,
  \<open>(?<=\,|\;)\s+|(?<=\sand\s)|(?<=\sbut\s)|(?<=\sor\s)|(?<=\sso\s)\<close>:
  its first alternative takes a whole run of whitespace after a comma or semicolon, the
  other four match the empty string after a conjunction between whitespace characters.
\<close>

definition after_pause :: "string \<Rightarrow> bool" where
  "after_pause behind =
     (case behind of c # _ \<Rightarrow> c = CHR '','' \<or> c = CHR '';'' | [] \<Rightarrow> False)"

definition after_word :: "string \<Rightarrow> string \<Rightarrow> bool" where
  \<comment> \<open>\<open>(?<=\sword\s)\<close>\<close>
  "after_word word behind =
     (case behind of
        [] \<Rightarrow> False
      | s2 # earlier \<Rightarrow>
          is_space s2 \<and> take (length word) earlier = rev word
          \<and> (case drop (length word) earlier of [] \<Rightarrow> False | s1 # _ \<Rightarrow> is_space s1))"

definition after_conjunction :: "string \<Rightarrow> bool" where
  "after_conjunction behind =
     (after_word ''and'' behind \<or> after_word ''but'' behind
      \<or> after_word ''or'' behind \<or> after_word ''so'' behind)"

definition starts_with_space :: "string \<Rightarrow> bool" where
  "starts_with_space s = (case s of [] \<Rightarrow> False | c # _ \<Rightarrow> is_space c)"

text \<open>
  \<open>re.split\<close> with the second pattern. After an empty match the next search starts at
  the same position and must not end there (\<open>must_advance\<close>): a match that takes
  characters is still allowed, a second empty one is not.
\<close>

function split_clauses :: "bool \<Rightarrow> string \<Rightarrow> string \<Rightarrow> string \<Rightarrow> string list" where
  "split_clauses must_advance behind piece rest =
     (if after_pause behind \<and> starts_with_space rest
      then rev piece #
           split_clauses False (rev (takeWhile is_space rest) @ behind) []
             (dropWhile is_space rest)
      else if \<not> must_advance \<and> after_conjunction behind
      then rev piece # split_clauses True behind [] rest
      else (case rest of
              [] \<Rightarrow> [rev piece]
            | c # cs \<Rightarrow> split_clauses False (c # behind) (c # piece) cs))"
  by pat_completeness auto
termination
proof (relation "measure (\<lambda>(must_advance, behind, piece, rest).
                   2 * length rest + (if must_advance then 0 else 1))")
  fix must_advance :: bool and behind piece rest :: string
  assume "after_pause behind \<and> starts_with_space rest"
  then obtain c cs where r: "rest = c # cs" and "is_space c"
    by (auto simp: starts_with_space_def split: list.splits)
  then have "length (dropWhile is_space rest) \<le> length cs"
    by (simp add: length_dropWhile_le)
  with r show "((False, rev (takeWhile is_space rest) @ behind, [], dropWhile is_space rest),
          must_advance, behind, piece, rest)
         \<in> measure (\<lambda>(must_advance, behind, piece, rest).
                   2 * length rest + (if must_advance then 0 else 1))"
    by simp
qed auto

declare split_clauses.simps [simp del]

definition split_into_sentences :: "string \<Rightarrow> string list" where
  "split_into_sentences text =
     (let raw_splits = split_sentences [] [] text;
          sentences =
            concat (map (\<lambda>raw.
              if length (strip raw) > 100
              then map strip
                     (filter (\<lambda>s. length (strip s) > 20) (split_clauses False [] [] raw))
              else [strip raw]) raw_splits)
      in filter (\<lambda>s. length (strip s) > 20 \<and> length (strip s) < 200) sentences)"

section \<open>Sentiment ranking (sentiment\_analyzer.py)\<close>

text \<open>
  A Python float is modelled by the real number it denotes; no comparison below involves
  a NaN that survives a filter. The scorer \<open>SentimentIntensityAnalyzer.polarity_scores\<close>
  belongs to NLTK and is a parameter \<open>sia\<close>.
\<close>

record polarity_scores =
  neg :: real
  neu :: real
  pos :: real
  sia_compound :: real  \<comment> \<open>the key \<open>"compound"\<close>\<close>

record analyzed_sentence =
  sentence :: string  \<comment> \<open>the key \<open>"text"\<close>\<close>
  compound :: real
  positive :: real
  negative :: real
  neutral :: real

record top_quote =
  quote :: string
  score :: real

definition analyze_sentences :: "(string \<Rightarrow> polarity_scores) \<Rightarrow> string list \<Rightarrow> analyzed_sentence list" where
  "analyze_sentences sia sentences =
     map (\<lambda>s. let sentiment = sia s
              in \<lparr>sentence = s, compound = sia_compound sentiment, positive = pos sentiment,
                  negative = neg sentiment, neutral = neu sentiment\<rparr>) sentences"

text \<open>
  \<open>sorted(xs, key=key, reverse=reverse)\<close>. Python's sort is stable, and with
  \<open>reverse=True\<close> elements with equal keys keep their original order too: the list is
  reversed, sorted, and reversed again.
\<close>

definition sorted_by :: "('a \<Rightarrow> real) \<Rightarrow> bool \<Rightarrow> 'a list \<Rightarrow> 'a list" where
  "sorted_by key reverse xs =
     (if reverse then rev (sort_key key (rev xs)) else sort_key key xs)"

definition slice_to :: "int \<Rightarrow> 'a list \<Rightarrow> 'a list" where
  \<comment> \<open>\<open>xs[:n]\<close>; a negative \<open>n\<close> counts from the end\<close>
  "slice_to n xs = (if n < 0 then take (nat (int (length xs) + n)) xs else take (nat n) xs)"

fun replace_double_space :: "string \<Rightarrow> string" where
  \<comment> \<open>\<open>text.replace("  ", " ")\<close>\<close>
  "replace_double_space (a # b # cs) =
     (if a = CHR '' '' \<and> b = CHR '' '' then CHR '' '' # replace_double_space cs
      else a # replace_double_space (b # cs))"
| "replace_double_space cs = cs"

definition format_quote :: "string \<Rightarrow> string" where
  "format_quote text =
     (let text1 = (if length text > 200 then take 197 text @ ''...'' else text);
          text2 = strip (replace_double_space text1)
      in [CHR 0x22] @ text2 @ [CHR 0x22])"

text \<open>The second half of \<open>get_top_quotes\<close>: filter, sort, cut to \<open>top_n\<close>, format.\<close>

definition as_quote :: "analyzed_sentence \<Rightarrow> top_quote" where
  "as_quote s = \<lparr>quote = format_quote (sentence s), score = compound s\<rparr>"

definition rank_sentences :: "analyzed_sentence list \<Rightarrow> int \<Rightarrow> string \<Rightarrow> top_quote list" where
  "rank_sentences analyzed_sentences top_n sentiment_type =
     (let filtered_sentences =
            (if sentiment_type = ''positive''
             then sorted_by compound True (filter (\<lambda>s. compound s > 0.2) analyzed_sentences)
             else sorted_by compound False (filter (\<lambda>s. compound s < - 0.2) analyzed_sentences))
      in map as_quote (slice_to top_n filtered_sentences))"

definition get_top_quotes ::
  "(string \<Rightarrow> polarity_scores) \<Rightarrow> string \<Rightarrow> int \<Rightarrow> string \<Rightarrow> top_quote list" where
  "get_top_quotes sia transcript top_n sentiment_type =
     (let cleaned_text = clean_transcript transcript;
          sentences = split_into_sentences cleaned_text;
          analyzed_sentences = analyze_sentences sia sentences
      in rank_sentences analyzed_sentences top_n sentiment_type)"

section \<open>Transcript formatting (app/transcript\_service.py)\<close>

record transcript_item =
  item_text :: "string option"  \<comment> \<open>the key \<open>"text"\<close>\<close>
  start :: "real option"

definition digit_char :: "nat \<Rightarrow> char" where
  "digit_char d = ''0123456789'' ! (d mod 10)"

fun decimal :: "nat \<Rightarrow> string" where
  "decimal n = (if n < 10 then [digit_char n] else decimal (n div 10) @ [digit_char (n mod 10)])"

declare decimal.simps [simp del]

definition format_02d :: "int \<Rightarrow> string" where
  \<comment> \<open>\<open>f"{n:02d}"\<close>: at least two characters, the sign included\<close>
  "format_02d n =
     (if n < 0 then CHR ''-'' # decimal (nat (- n))
      else let d = decimal (nat n) in if length d < 2 then CHR ''0'' # d else d)"

definition py_int :: "real \<Rightarrow> int" where
  \<comment> \<open>\<open>int(x)\<close> truncates towards zero\<close>
  "py_int x = (if x < 0 then \<lceil>x\<rceil> else \<lfloor>x\<rfloor>)"

definition floordiv :: "real \<Rightarrow> real \<Rightarrow> real" where
  \<comment> \<open>\<open>x // y\<close>\<close>
  "floordiv x y = of_int \<lfloor>x / y\<rfloor>"

definition pymod :: "real \<Rightarrow> real \<Rightarrow> real" where
  \<comment> \<open>\<open>x % y\<close>\<close>
  "pymod x y = x - y * of_int \<lfloor>x / y\<rfloor>"

definition get_text :: "transcript_item \<Rightarrow> string" where
  \<comment> \<open>\<open>item.get('text', '')\<close>\<close>
  "get_text item = (case item_text item of None \<Rightarrow> [] | Some t \<Rightarrow> t)"

definition get_start :: "transcript_item \<Rightarrow> real" where
  \<comment> \<open>\<open>item.get('start', 0)\<close>\<close>
  "get_start item = (case start item of None \<Rightarrow> 0 | Some t \<Rightarrow> t)"

definition format_line :: "transcript_item \<Rightarrow> string" where
  \<comment> \<open>the text one turn of the loop appends\<close>
  "format_line item =
     (let text = get_text item;
          start_time = get_start item;
          minutes = py_int (floordiv start_time 60);
          seconds = py_int (pymod start_time 60);
          timestamp = ''['' @ format_02d minutes @ '':'' @ format_02d seconds @ '']''
      in timestamp @ '' '' @ text @ [CHR 0x0A])"

definition format_transcript :: "transcript_item list \<Rightarrow> string" where
  "format_transcript transcript_data =
     foldl (\<lambda>formatted_text item. formatted_text @ format_line item) [] transcript_data"


section \<open>The timestamp format of the specification\<close>

text \<open>
  The specification's marker \<open>[MM:SS]\<close>: a bracket, two digits, a colon, two digits, a
  bracket; and its line \<open>[MM:SS] text\<close> followed by a newline. These two definitions
  follow the specification, not the code.
\<close>

definition is_mmss_marker :: "string \<Rightarrow> bool" where
  "is_mmss_marker m =
     (case m of
        [a, m1, m2, c, s1, s2, b] \<Rightarrow>
          a = CHR ''['' \<and> is_digit m1 \<and> is_digit m2 \<and> c = CHR '':''
          \<and> is_digit s1 \<and> is_digit s2 \<and> b = CHR '']''
      | _ \<Rightarrow> False)"

definition is_mmss_line :: "string \<Rightarrow> string \<Rightarrow> bool" where
  "is_mmss_line text line =
     (is_mmss_marker (take 7 line) \<and> drop 7 line = CHR '' '' # text @ [CHR 0x0A])"

definition mmss_line :: "nat \<Rightarrow> nat \<Rightarrow> string \<Rightarrow> string" where
  \<comment> \<open>the line for \<open>m\<close> minutes and \<open>s\<close> seconds, \<open>m < 100\<close> and \<open>s < 60\<close>\<close>
  "mmss_line m s text =
     [CHR ''['', digit_char (m div 10), digit_char (m mod 10), CHR '':'',
      digit_char (s div 10), digit_char (s mod 10), CHR '']'', CHR '' ''] @ text @ [CHR 0x0A]"

section \<open>Normal form of whitespace\<close>

text \<open>
  A string is single-spaced when every whitespace character in it is a space that is
  followed by a character that is not whitespace, or by the end of the string.
\<close>

fun single_spaced :: "string \<Rightarrow> bool" where
  "single_spaced [] = True"
| "single_spaced [c] = (is_space c \<longrightarrow> c = CHR '' '')"
| "single_spaced (a # b # cs) =
     ((is_space a \<longrightarrow> a = CHR '' '' \<and> \<not> is_space b) \<and> single_spaced (b # cs))"

section \<open>Example inputs\<close>

definition success_result :: "string \<Rightarrow> string \<Rightarrow> extraction_result" where
  "success_result m body =
     \<lparr>status = ''success'', title = None, result_text = Some body, summary = None,
      result_keywords = None, authors = None, publish_date = None, top_image = None,
      method_name = Some m, message = None\<rparr>"

definition failed_result :: "string \<Rightarrow> string \<Rightarrow> extraction_result" where
  "failed_result m msg =
     \<lparr>status = ''error'', title = None, result_text = None, summary = None,
      result_keywords = None, authors = None, publish_date = None, top_image = None,
      method_name = Some m, message = Some msg\<rparr>"

text \<open>
  A world in which \<open>https://example.com/post\<close> parses into a scheme and a host, any
  other string parses into neither, and the three strategies return \<open>t\<close>, \<open>n\<close> and \<open>b\<close>.
\<close>

definition example_web ::
  "extraction_result \<Rightarrow> extraction_result \<Rightarrow> extraction_result \<Rightarrow> web" where
  "example_web t n b =
     \<lparr>urlparse = (\<lambda>url. if url = ''https://example.com/post''
                          then Some \<lparr>scheme = ''https'', netloc = ''example.com''\<rparr>
                          else Some \<lparr>scheme = [], netloc = []\<rparr>),
      extract_with_trafilatura = (\<lambda>_. t),
      extract_with_newspaper = (\<lambda>_. n),
      extract_with_beautifulsoup = (\<lambda>_. b)\<rparr>"

definition example_sia :: "string \<Rightarrow> polarity_scores" where
  "example_sia s =
     \<lparr>neg = 0, neu = 0, pos = 0,
      sia_compound =
        (if s = ''I absolutely loved this wonderful day.'' then 0.8
         else if s = ''This second sentence is also quite nice.'' then 0.8
         else if s = ''The meeting starts at nine as usual.'' then 0
         else - 0.5)\<rparr>"

definition example_transcript :: string where
  "example_transcript =
     ''[00:00] I absolutely loved this wonderful day. [00:03] The meeting starts at nine as usual. This was a terrible thing to see. This second sentence is also quite nice.''"

definition candidate :: "string \<Rightarrow> real \<Rightarrow> analyzed_sentence" where
  "candidate s c = \<lparr>sentence = s, compound = c, positive = 0, negative = 0, neutral = 0\<rparr>"

definition example_candidates :: "analyzed_sentence list" where
  "example_candidates =
     [candidate ''first good'' 0.5, candidate ''best'' 0.9, candidate ''second good'' 0.5,
      candidate ''bad'' (- 0.3), candidate ''flat'' 0.1, candidate ''third good'' 0.5,
      candidate ''worst'' (- 0.7), candidate ''bad too'' (- 0.3)]"

definition example_items :: "transcript_item list" where
  "example_items =
     [\<lparr>item_text = Some ''Hello world'', start = Some 0\<rparr>,
      \<lparr>item_text = Some ''This is a test'', start = Some 65.5\<rparr>,
      \<lparr>item_text = Some ''Goodbye'', start = Some 5999.9\<rparr>]"

section \<open>The extraction cascade\<close>

lemma example_web_valid:
  "is_valid_url (example_web t n b) ''https://example.com/post''"
  by (simp add: is_valid_url_def example_web_def)

text \<open>
  C8. A string in which \<open>urlparse\<close> finds no scheme or no host makes \<open>extract_content\<close>
  return the error dictionary with the message \<open>Invalid URL format\<close>, and no strategy is
  invoked.
\<close>

theorem extract_content_invalid_url:
  assumes "urlparse w url = Some r" and "scheme r = [] \<or> netloc r = []"
  shows "extract_content w url = (error_result ''Invalid URL format'', [])"
  using assms by (auto simp: extract_content_def is_valid_url_def)

theorem extract_content_invalid_url_witness:
  "urlparse (example_web (success_result ''trafilatura'' ''abc'')
       (failed_result ''newspaper3k'' ''x'') (failed_result ''beautifulsoup'' ''y''))
     ''example.com/post'' = Some \<lparr>scheme = [], netloc = []\<rparr>
   \<and> extract_content (example_web (success_result ''trafilatura'' ''abc'')
       (failed_result ''newspaper3k'' ''x'') (failed_result ''beautifulsoup'' ''y''))
     ''example.com/post'' = (error_result ''Invalid URL format'', [])"
  using extract_content_invalid_url
    [of "example_web (success_result ''trafilatura'' ''abc'')
           (failed_result ''newspaper3k'' ''x'') (failed_result ''beautifulsoup'' ''y'')"
        "''example.com/post''" "\<lparr>scheme = [], netloc = []\<rparr>"]
  by (simp add: example_web_def)

text \<open>
  C7. On a valid URL for which none of the three strategies returns status \<open>success\<close>,
  \<open>extract_content\<close> returns the one fixed error dictionary, which holds a status and a
  message and nothing of what the strategies reported; each strategy has been invoked
  once, in priority order.
\<close>

theorem extract_content_all_failed:
  assumes "is_valid_url w url"
    and "status (extract_with_trafilatura w url) \<noteq> ''success''"
    and "status (extract_with_newspaper w url) \<noteq> ''success''"
    and "status (extract_with_beautifulsoup w url) \<noteq> ''success''"
  shows "extract_content w url =
           (error_result ''Failed to extract content from the URL using all available methods'',
            [Trafilatura, Newspaper, BeautifulSoup])"
  using assms by (simp add: extract_content_def passes_gate_def has_text_def Let_def)

theorem extract_content_all_failed_witness:
  "is_valid_url (example_web (failed_result ''trafilatura'' ''Failed to download content'')
       (failed_result ''newspaper3k'' ''x'') (failed_result ''beautifulsoup'' ''y''))
     ''https://example.com/post''
   \<and> extract_content (example_web (failed_result ''trafilatura'' ''Failed to download content'')
       (failed_result ''newspaper3k'' ''x'') (failed_result ''beautifulsoup'' ''y''))
     ''https://example.com/post'' =
       (\<lparr>status = ''error'', title = None, result_text = None, summary = None,
         result_keywords = None, authors = None, publish_date = None, top_image = None,
         method_name = None,
         message = Some ''Failed to extract content from the URL using all available methods''\<rparr>,
        [Trafilatura, Newspaper, BeautifulSoup])"
  using extract_content_all_failed
    [of "example_web (failed_result ''trafilatura'' ''Failed to download content'')
           (failed_result ''newspaper3k'' ''x'') (failed_result ''beautifulsoup'' ''y'')"
        "''https://example.com/post''"]
  by (simp add: example_web_valid error_result_def)
    (simp add: example_web_def failed_result_def)

text \<open>
  C2, as stated, fails at a body of exactly 200 characters: the gate is \<open>len > 200\<close>, so
  the second strategy runs, and here its result is the one returned.
\<close>

theorem extract_content_gate_200_counterexample:
  "is_valid_url (example_web (success_result ''trafilatura'' (replicate 200 CHR ''a''))
       (success_result ''newspaper3k'' (replicate 300 CHR ''b''))
       (failed_result ''beautifulsoup'' ''y'')) ''https://example.com/post''
   \<and> length (replicate 200 CHR ''a'') \<ge> 200
   \<and> extract_content (example_web (success_result ''trafilatura'' (replicate 200 CHR ''a''))
       (success_result ''newspaper3k'' (replicate 300 CHR ''b''))
       (failed_result ''beautifulsoup'' ''y'')) ''https://example.com/post''
     = (success_result ''newspaper3k'' (replicate 300 CHR ''b''), [Trafilatura, Newspaper])"
  by (simp add: example_web_valid)
    (simp add: extract_content_def passes_gate_def has_text_def truthy_def Let_def
      example_web_def is_valid_url_def success_result_def failed_result_def)

text \<open>
  C2, amended. On a valid URL for which the first strategy returns status \<open>success\<close> and
  a body of more than 200 characters, \<open>extract_content\<close> returns that result and has
  invoked no other strategy.
\<close>

theorem extract_content_short_circuit:
  assumes "is_valid_url w url"
    and "status (extract_with_trafilatura w url) = ''success''"
    and "result_text (extract_with_trafilatura w url) = Some body"
    and "length body > 200"
  shows "extract_content w url = (extract_with_trafilatura w url, [Trafilatura])"
proof -
  have "body \<noteq> []" using assms(4) by auto
  with assms have "passes_gate (extract_with_trafilatura w url)"
    by (simp add: passes_gate_def has_text_def truthy_def)
  with assms(1) show ?thesis by (simp add: extract_content_def)
qed

theorem extract_content_short_circuit_witness:
  "is_valid_url (example_web (success_result ''trafilatura'' (replicate 201 CHR ''a''))
       (success_result ''newspaper3k'' (replicate 300 CHR ''b''))
       (failed_result ''beautifulsoup'' ''y'')) ''https://example.com/post''
   \<and> length (replicate 201 CHR ''a'') > 200
   \<and> extract_content (example_web (success_result ''trafilatura'' (replicate 201 CHR ''a''))
       (success_result ''newspaper3k'' (replicate 300 CHR ''b''))
       (failed_result ''beautifulsoup'' ''y'')) ''https://example.com/post''
     = (success_result ''trafilatura'' (replicate 201 CHR ''a''), [Trafilatura])"
  using extract_content_short_circuit
    [of "example_web (success_result ''trafilatura'' (replicate 201 CHR ''a''))
           (success_result ''newspaper3k'' (replicate 300 CHR ''b''))
           (failed_result ''beautifulsoup'' ''y'')"
        "''https://example.com/post''" "replicate 201 CHR ''a''"]
  by (simp add: example_web_valid) (simp add: example_web_def success_result_def)

text \<open>
  C1, as stated, fails when the first strategy and the generic scraper both return a
  short body: the first strategy in priority order with a usable body is the
  metadata-aware one, and the result returned is the scraper's.
\<close>

theorem extract_content_first_usable_counterexample:
  "\<not> passes_gate (success_result ''trafilatura'' ''abc'')
   \<and> \<not> passes_gate (failed_result ''newspaper3k'' ''x'')
   \<and> \<not> passes_gate (success_result ''beautifulsoup'' ''xyz'')
   \<and> find has_text [success_result ''trafilatura'' ''abc'', failed_result ''newspaper3k'' ''x'',
        success_result ''beautifulsoup'' ''xyz''] = Some (success_result ''trafilatura'' ''abc'')
   \<and> fst (extract_content (example_web (success_result ''trafilatura'' ''abc'')
         (failed_result ''newspaper3k'' ''x'') (success_result ''beautifulsoup'' ''xyz''))
       ''https://example.com/post'') = success_result ''beautifulsoup'' ''xyz''
   \<and> success_result ''beautifulsoup'' ''xyz'' \<noteq> success_result ''trafilatura'' ''abc''"
  by (simp add: extract_content_def passes_gate_def has_text_def truthy_def Let_def
      example_web_def is_valid_url_def success_result_def failed_result_def)

text \<open>
  C1, amended. On a valid URL for which neither of the first two strategies passes the
  200-character gate, \<open>extract_content\<close> returns the generic scraper's result whenever
  that has status \<open>success\<close> and a non-empty body, of any length; otherwise it returns
  the first of the metadata-aware and the heuristic result that has status \<open>success\<close>
  and a non-empty body, and the uniform failure when there is none.
\<close>

theorem extract_content_fallback:
  assumes "is_valid_url w url"
    and "\<not> passes_gate (extract_with_trafilatura w url)"
    and "\<not> passes_gate (extract_with_newspaper w url)"
  shows "extract_content w url =
           (if has_text (extract_with_beautifulsoup w url)
            then extract_with_beautifulsoup w url
            else if has_text (extract_with_trafilatura w url)
            then extract_with_trafilatura w url
            else if has_text (extract_with_newspaper w url)
            then extract_with_newspaper w url
            else error_result
                   ''Failed to extract content from the URL using all available methods'',
            [Trafilatura, Newspaper, BeautifulSoup])"
  using assms by (simp add: extract_content_def Let_def)

theorem extract_content_fallback_witness:
  "is_valid_url (example_web (success_result ''trafilatura'' ''abc'')
       (failed_result ''newspaper3k'' ''x'') (failed_result ''beautifulsoup'' ''y''))
     ''https://example.com/post''
   \<and> \<not> passes_gate (success_result ''trafilatura'' ''abc'')
   \<and> \<not> passes_gate (failed_result ''newspaper3k'' ''x'')
   \<and> extract_content (example_web (success_result ''trafilatura'' ''abc'')
       (failed_result ''newspaper3k'' ''x'') (failed_result ''beautifulsoup'' ''y''))
     ''https://example.com/post''
     = (success_result ''trafilatura'' ''abc'', [Trafilatura, Newspaper, BeautifulSoup])"
  using extract_content_fallback
    [of "example_web (success_result ''trafilatura'' ''abc'')
           (failed_result ''newspaper3k'' ''x'') (failed_result ''beautifulsoup'' ''y'')"
        "''https://example.com/post''"]
  by (simp add: example_web_valid)
    (simp add: example_web_def passes_gate_def has_text_def truthy_def
      success_result_def failed_result_def)

section \<open>Segmentation and ranking\<close>

text \<open>
  C5. Every element of the list \<open>split_into_sentences\<close> returns has, once stripped, more
  than 20 and fewer than 200 characters.
\<close>

theorem split_into_sentences_lengths:
  "\<forall>s \<in> set (split_into_sentences text). 20 < length (strip s) \<and> length (strip s) < 200"
  by (simp add: split_into_sentences_def Let_def)

lemma split_into_sentences_example:
  "split_into_sentences ''This is a sentence of some length. Short one.''
     = [''This is a sentence of some length.'']"
  by code_simp

theorem split_into_sentences_lengths_witness:
  "''This is a sentence of some length.''
     \<in> set (split_into_sentences ''This is a sentence of some length. Short one.'')
   \<and> 20 < length (strip ''This is a sentence of some length.'')
   \<and> length (strip ''This is a sentence of some length.'') < 200"
  using split_into_sentences_lengths [of "''This is a sentence of some length. Short one.''"]
  by (simp add: split_into_sentences_example)

lemma sorted_by_stable:
  "filter (\<lambda>x. key x = k) (sorted_by key reverse xs) = filter (\<lambda>x. key x = k) xs"
proof (cases reverse)
  case True
  have "filter (\<lambda>x. key x = k) (rev (sort_key key (rev xs)))
          = rev (filter (\<lambda>x. key x = k) (sort_key key (rev xs)))"
    by (simp add: rev_filter)
  also have "\<dots> = rev (filter (\<lambda>x. key x = k) (rev xs))"
    by (simp add: sort_key_stable)
  also have "\<dots> = filter (\<lambda>x. key x = k) xs"
    by (simp add: rev_filter)
  finally show ?thesis using True by (simp add: sorted_by_def)
next
  case False
  then show ?thesis by (simp add: sorted_by_def sort_key_stable)
qed

lemma set_sorted_by: "set (sorted_by key reverse xs) = set xs"
  by (simp add: sorted_by_def)

lemma sorted_by_descending:
  "sorted_wrt (\<lambda>a b. a \<ge> b) (map key (sorted_by key True xs))"
proof -
  have "sorted (map key (sort_key key (rev xs)))" by (rule sorted_sort_key)
  then have "sorted_wrt (\<lambda>a b. a \<ge> b) (rev (map key (sort_key key (rev xs))))"
    by (simp add: sorted_wrt_rev)
  then show ?thesis by (simp add: sorted_by_def rev_map)
qed

lemma sorted_by_ascending: "sorted (map key (sorted_by key False xs))"
  by (simp add: sorted_by_def)

lemma slice_to_take: "\<exists>m. slice_to n xs = take m xs"
  by (auto simp: slice_to_def)

lemma sorted_wrt_take: "sorted_wrt P xs \<Longrightarrow> sorted_wrt P (take m xs)"
  by (metis append_take_drop_id sorted_wrt_append)

lemma score_as_quote: "map score (map as_quote xs) = map compound xs"
  by (simp add: as_quote_def)

lemma filter_score_as_quote:
  "filter (\<lambda>q. score q = v) (map as_quote xs) = map as_quote (filter (\<lambda>s. compound s = v) xs)"
  by (induction xs) (auto simp: as_quote_def)

lemma ranked_prefix:
  assumes "ys = take m (sorted_by compound reverse (filter (\<lambda>s. T (compound s)) xs))"
  shows "prefix (filter (\<lambda>q. score q = v) (map as_quote ys))
           (map as_quote (filter (\<lambda>s. compound s = v) xs))"
proof -
  let ?Q = "\<lambda>s. compound s = v" and ?P = "\<lambda>s. T (compound s)"
  have "prefix ys (sorted_by compound reverse (filter ?P xs))"
    using assms by (simp add: take_is_prefix)
  then have "prefix (filter ?Q ys) (filter ?Q (sorted_by compound reverse (filter ?P xs)))"
    by (rule filter_mono_prefix)
  then have p: "prefix (filter ?Q ys) (filter ?Q (filter ?P xs))"
    by (simp only: sorted_by_stable)
  have "filter ?Q (filter ?P xs) = (if T v then filter ?Q xs else [])"
    by (induction xs) auto
  then have "prefix (filter ?Q (filter ?P xs)) (filter ?Q xs)" by simp
  with p have "prefix (filter ?Q ys) (filter ?Q xs)" by (rule prefix_order.trans)
  then have "prefix (map as_quote (filter ?Q ys)) (map as_quote (filter ?Q xs))"
    by (rule map_mono_prefix)
  then show ?thesis by (simp only: filter_score_as_quote)
qed

text \<open>
  C6. For every list of scored candidates and every \<open>top_n\<close>: with \<open>'positive'\<close> every
  score returned is above 0.2 and the scores never increase along the list; with
  \<open>'negative'\<close> every score is below -0.2 and the scores never decrease; and in both
  cases the quotes returned with any one score are the first candidates with that score,
  in the order of the candidate list.
\<close>

theorem rank_sentences_ordered:
  "(\<forall>q \<in> set (rank_sentences xs top_n ''positive''). score q > 0.2)
   \<and> sorted_wrt (\<lambda>a b. a \<ge> b) (map score (rank_sentences xs top_n ''positive''))
   \<and> (\<forall>q \<in> set (rank_sentences xs top_n ''negative''). score q < - 0.2)
   \<and> sorted_wrt (\<lambda>a b. a \<le> b) (map score (rank_sentences xs top_n ''negative''))
   \<and> (\<forall>v. prefix (filter (\<lambda>q. score q = v) (rank_sentences xs top_n ''positive''))
             (map as_quote (filter (\<lambda>s. compound s = v) xs))
        \<and> prefix (filter (\<lambda>q. score q = v) (rank_sentences xs top_n ''negative''))
             (map as_quote (filter (\<lambda>s. compound s = v) xs)))"
proof -
  let ?pos = "sorted_by compound True (filter (\<lambda>s. compound s > 0.2) xs)"
  let ?neg = "sorted_by compound False (filter (\<lambda>s. compound s < - 0.2) xs)"
  obtain m where m: "slice_to top_n ?pos = take m ?pos"
    using slice_to_take by blast
  obtain k where k: "slice_to top_n ?neg = take k ?neg"
    using slice_to_take by blast
  have rp: "rank_sentences xs top_n ''positive'' = map as_quote (take m ?pos)"
    by (simp only: rank_sentences_def Let_def m if_True refl)
  have rn: "rank_sentences xs top_n ''negative'' = map as_quote (take k ?neg)"
  proof -
    have "''negative'' \<noteq> ''positive''" by simp
    then show ?thesis by (simp only: rank_sentences_def Let_def k if_False)
  qed
  have 1: "\<forall>q \<in> set (rank_sentences xs top_n ''positive''). score q > 0.2"
  proof
    fix q assume "q \<in> set (rank_sentences xs top_n ''positive'')"
    then obtain s where "s \<in> set (take m ?pos)" and q: "q = as_quote s"
      unfolding rp by auto
    then have "s \<in> set ?pos" by (blast dest: in_set_takeD)
    then have "compound s > 0.2" by (simp add: set_sorted_by)
    then show "score q > 0.2" by (simp add: q as_quote_def)
  qed
  have 2: "\<forall>q \<in> set (rank_sentences xs top_n ''negative''). score q < - 0.2"
  proof
    fix q assume "q \<in> set (rank_sentences xs top_n ''negative'')"
    then obtain s where "s \<in> set (take k ?neg)" and q: "q = as_quote s"
      unfolding rn by auto
    then have "s \<in> set ?neg" by (blast dest: in_set_takeD)
    then have "compound s < - 0.2" by (simp add: set_sorted_by)
    then show "score q < - 0.2" by (simp add: q as_quote_def)
  qed
  have 3: "sorted_wrt (\<lambda>a b. a \<ge> b) (map score (rank_sentences xs top_n ''positive''))"
  proof -
    have "sorted_wrt (\<lambda>a b. a \<ge> b) (take m (map compound ?pos))"
      by (rule sorted_wrt_take) (rule sorted_by_descending)
    then show ?thesis by (simp only: rp score_as_quote take_map)
  qed
  have 4: "sorted_wrt (\<lambda>a b. a \<le> b) (map score (rank_sentences xs top_n ''negative''))"
  proof -
    have "sorted_wrt (\<lambda>a b. a \<le> b) (take k (map compound ?neg))"
      by (rule sorted_wrt_take) (rule sorted_by_ascending)
    then show ?thesis by (simp only: rn score_as_quote take_map)
  qed
  have 5: "prefix (filter (\<lambda>q. score q = v) (rank_sentences xs top_n ''positive''))
             (map as_quote (filter (\<lambda>s. compound s = v) xs))" for v
    unfolding rp by (rule ranked_prefix [where T = "\<lambda>c. c > 0.2"]) (rule refl)
  have 6: "prefix (filter (\<lambda>q. score q = v) (rank_sentences xs top_n ''negative''))
             (map as_quote (filter (\<lambda>s. compound s = v) xs))" for v
    unfolding rn by (rule ranked_prefix [where T = "\<lambda>c. c < - 0.2"]) (rule refl)
  from 1 2 3 4 5 6 show ?thesis by blast
qed

lemma rank_example_positive:
  "rank_sentences example_candidates 3 ''positive''
     = [as_quote (candidate ''best'' 0.9), as_quote (candidate ''first good'' 0.5),
        as_quote (candidate ''second good'' 0.5)]"
  by (simp add: rank_sentences_def example_candidates_def sorted_by_def slice_to_def
      candidate_def)

lemma rank_example_negative:
  "rank_sentences example_candidates 3 ''negative''
     = [as_quote (candidate ''worst'' (- 0.7)), as_quote (candidate ''bad'' (- 0.3)),
        as_quote (candidate ''bad too'' (- 0.3))]"
  by (simp add: rank_sentences_def example_candidates_def sorted_by_def slice_to_def
      candidate_def)

theorem rank_sentences_ordered_witness:
  "as_quote (candidate ''first good'' 0.5) \<in> set (rank_sentences example_candidates 3 ''positive'')
   \<and> score (as_quote (candidate ''first good'' 0.5)) > 0.2
   \<and> sorted_wrt (\<lambda>a b. a \<ge> b) (map score (rank_sentences example_candidates 3 ''positive''))
   \<and> as_quote (candidate ''bad too'' (- 0.3)) \<in> set (rank_sentences example_candidates 3 ''negative'')
   \<and> score (as_quote (candidate ''bad too'' (- 0.3))) < - 0.2
   \<and> sorted_wrt (\<lambda>a b. a \<le> b) (map score (rank_sentences example_candidates 3 ''negative''))
   \<and> prefix (filter (\<lambda>q. score q = 0.5) (rank_sentences example_candidates 3 ''positive''))
        (map as_quote (filter (\<lambda>s. compound s = 0.5) example_candidates))
   \<and> prefix (filter (\<lambda>q. score q = - 0.3) (rank_sentences example_candidates 3 ''negative''))
        (map as_quote (filter (\<lambda>s. compound s = - 0.3) example_candidates))"
proof -
  have p: "as_quote (candidate ''first good'' 0.5)
             \<in> set (rank_sentences example_candidates 3 ''positive'')"
    by (simp add: rank_example_positive)
  have n: "as_quote (candidate ''bad too'' (- 0.3))
             \<in> set (rank_sentences example_candidates 3 ''negative'')"
    by (simp add: rank_example_negative)
  from p n rank_sentences_ordered [of example_candidates 3] show ?thesis by blast
qed

text \<open>
  C10. With any \<open>sentiment_type\<close> other than the string \<open>'positive'\<close>, \<open>get_top_quotes\<close>
  returns what it returns for \<open>'negative'\<close>: the candidates with a compound score
  below -0.2, in ascending order of score, cut to \<open>top_n\<close>.
\<close>

theorem get_top_quotes_other_type:
  assumes "sentiment_type \<noteq> ''positive''"
  shows "get_top_quotes sia transcript top_n sentiment_type
           = get_top_quotes sia transcript top_n ''negative''
         \<and> get_top_quotes sia transcript top_n sentiment_type
           = map as_quote (slice_to top_n (sort_key compound
               (filter (\<lambda>s. compound s < - 0.2)
                 (analyze_sentences sia (split_into_sentences (clean_transcript transcript))))))"
  using assms by (simp add: get_top_quotes_def rank_sentences_def sorted_by_def)

lemma example_transcript_sentences:
  "split_into_sentences (clean_transcript example_transcript)
     = [''I absolutely loved this wonderful day.'', ''The meeting starts at nine as usual.'',
        ''This was a terrible thing to see.'', ''This second sentence is also quite nice.'']"
  by code_simp

lemma example_quote:
  "format_quote ''This was a terrible thing to see.''
     = CHR 0x22 # ''This was a terrible thing to see.'' @ [CHR 0x22]"
  by code_simp

lemma example_top_negative:
  "get_top_quotes example_sia example_transcript 5 ''negative''
     = [\<lparr>quote = CHR 0x22 # ''This was a terrible thing to see.'' @ [CHR 0x22],
         score = - 0.5\<rparr>]"
  by (simp add: get_top_quotes_def example_transcript_sentences analyze_sentences_def
      example_sia_def rank_sentences_def sorted_by_def slice_to_def as_quote_def example_quote)

theorem get_top_quotes_other_type_witness:
  "''neutral'' \<noteq> ''positive''
   \<and> get_top_quotes example_sia example_transcript 5 ''neutral''
     = get_top_quotes example_sia example_transcript 5 ''negative''
   \<and> get_top_quotes example_sia example_transcript 5 ''neutral''
     = [\<lparr>quote = CHR 0x22 # ''This was a terrible thing to see.'' @ [CHR 0x22],
         score = - 0.5\<rparr>]"
  using get_top_quotes_other_type [of "''neutral''" example_sia example_transcript 5]
  by (simp add: example_top_negative)

section \<open>Transcript lines\<close>

lemma digits_table: "\<forall>n \<in> set [0..<10]. is_digit (''0123456789'' ! n)"
  by code_simp

lemma is_digit_digit_char: "is_digit (digit_char d)"
proof -
  have "d mod 10 \<in> set [0..<10]" by simp
  with digits_table show ?thesis unfolding digit_char_def by blast
qed

lemma decimal_two_digits:
  assumes "n < 100"
  shows "(if n < 10 then CHR ''0'' # decimal n else decimal n)
           = [digit_char (n div 10), digit_char (n mod 10)]"
proof (cases "n < 10")
  case True
  then show ?thesis by (simp add: decimal.simps [of n] digit_char_def)
next
  case False
  with assms have "n div 10 < 10" by simp
  with False show ?thesis
    by (simp add: decimal.simps [of n] decimal.simps [of "n div 10"] digit_char_def)
qed

lemma length_decimal: "length (decimal n) < 2 \<longleftrightarrow> n < 10"
proof (cases "n < 10")
  case True
  then show ?thesis by (simp add: decimal.simps [of n])
next
  case False
  have "decimal (n div 10) \<noteq> []"
    by (subst decimal.simps) simp
  with False show ?thesis by (simp add: decimal.simps [of n])
qed

lemma format_02d_two_digits:
  assumes "0 \<le> n" and "n < 100"
  shows "format_02d n = [digit_char (nat n div 10), digit_char (nat n mod 10)]"
proof -
  have "nat n < 100" using assms by simp
  from decimal_two_digits [OF this] assms(1) show ?thesis
    by (simp add: format_02d_def Let_def length_decimal)
qed

lemma minutes_eq: "py_int (floordiv t 60) = \<lfloor>t\<rfloor> div 60"
proof -
  have "\<lfloor>t / real_of_int 60\<rfloor> = \<lfloor>t\<rfloor> div 60"
    by (rule floor_divide_real_eq_div) simp
  then show ?thesis by (simp add: py_int_def floordiv_def)
qed

lemma seconds_eq: "py_int (pymod t 60) = \<lfloor>t\<rfloor> mod 60"
proof -
  have d: "\<lfloor>t / real_of_int 60\<rfloor> = \<lfloor>t\<rfloor> div 60"
    by (rule floor_divide_real_eq_div) simp
  have "pymod t 60 = t - of_int (60 * (\<lfloor>t\<rfloor> div 60))"
    using d by (simp add: pymod_def)
  then have f: "\<lfloor>pymod t 60\<rfloor> = \<lfloor>t\<rfloor> - 60 * (\<lfloor>t\<rfloor> div 60)"
    by (simp only: floor_diff_of_int)
  then have m: "\<lfloor>pymod t 60\<rfloor> = \<lfloor>t\<rfloor> mod 60"
    by (simp add: minus_mult_div_eq_mod)
  then have "0 \<le> \<lfloor>pymod t 60\<rfloor>" by simp
  then have "\<not> pymod t 60 < 0" by (simp add: not_less)
  with m show ?thesis by (simp add: py_int_def)
qed

lemma format_transcript_concat: "format_transcript items = concat (map format_line items)"
proof -
  have "foldl (\<lambda>acc item. acc @ format_line item) a items = a @ concat (map format_line items)"
    for a
    by (induction items arbitrary: a) simp_all
  then show ?thesis by (simp add: format_transcript_def)
qed

lemma format_line_mmss:
  assumes "0 \<le> get_start item" and "get_start item < 6000"
  shows "format_line item
           = mmss_line (nat (\<lfloor>get_start item\<rfloor> div 60)) (nat (\<lfloor>get_start item\<rfloor> mod 60))
               (get_text item)"
proof -
  let ?k = "\<lfloor>get_start item\<rfloor>"
  have k: "0 \<le> ?k" "?k < 6000" using assms by (simp_all add: floor_less_iff)
  then have m: "0 \<le> ?k div 60" "?k div 60 < 100" by presburger+
  have s: "0 \<le> ?k mod 60" "?k mod 60 < 100" by presburger+
  show ?thesis
    by (simp add: format_line_def Let_def minutes_eq seconds_eq
        format_02d_two_digits [OF m] format_02d_two_digits [OF s] mmss_line_def)
qed

lemma is_mmss_line_mmss_line: "is_mmss_line text (mmss_line m s text)"
  by (simp add: is_mmss_line_def mmss_line_def is_mmss_marker_def is_digit_digit_char)

text \<open>
  C9, as stated, fails from 100 minutes on: \<open>02d\<close> pads to at least two digits, so a
  segment starting at 6000 seconds is rendered with a three-digit minutes field.
\<close>

theorem format_transcript_100_minutes_counterexample:
  "(0::real) \<le> 6000
   \<and> format_transcript [\<lparr>item_text = Some ''x'', start = Some 6000\<rparr>]
       = ''[100:00] x'' @ [CHR 0x0A]
   \<and> \<not> is_mmss_line ''x'' (format_transcript [\<lparr>item_text = Some ''x'', start = Some 6000\<rparr>])"
proof -
  have "format_transcript [\<lparr>item_text = Some ''x'', start = Some 6000\<rparr>]
          = ''[100:00] x'' @ [CHR 0x0A]"
    by (simp add: format_transcript_def format_line_def Let_def minutes_eq seconds_eq
        get_start_def get_text_def format_02d_def decimal.simps digit_char_def)
  then show ?thesis
    by (simp add: is_mmss_line_def is_mmss_marker_def is_digit_def)
qed

text \<open>
  C9, amended. For every list of transcript segments whose start offsets are
  non-negative and below 6000 seconds, \<open>format_transcript\<close> is the concatenation, in
  order, of one line per segment, each exactly \<open>[MM:SS] text\<close> and a newline, where
  \<open>MM\<close> and \<open>SS\<close> are the two-digit decimals of the whole minutes and of the remaining
  whole seconds of the offset.
\<close>

theorem format_transcript_mmss:
  assumes "\<forall>item \<in> set items. 0 \<le> get_start item \<and> get_start item < 6000"
  shows "format_transcript items
           = concat (map (\<lambda>item. mmss_line (nat (\<lfloor>get_start item\<rfloor> div 60))
                                     (nat (\<lfloor>get_start item\<rfloor> mod 60)) (get_text item)) items)
         \<and> (\<forall>item \<in> set items. is_mmss_line (get_text item) (format_line item))"
proof -
  have a: "map format_line items
          = map (\<lambda>item. mmss_line (nat (\<lfloor>get_start item\<rfloor> div 60))
                           (nat (\<lfloor>get_start item\<rfloor> mod 60)) (get_text item)) items"
    using assms by (intro map_cong refl format_line_mmss) auto
  have b: "\<forall>item \<in> set items. is_mmss_line (get_text item) (format_line item)"
    using assms by (auto simp: format_line_mmss is_mmss_line_mmss_line)
  show ?thesis
    unfolding format_transcript_concat a using b by (rule conjI [OF refl])
qed

lemma example_items_starts:
  "\<forall>item \<in> set example_items. 0 \<le> get_start item \<and> get_start item < 6000"
  by (simp add: example_items_def get_start_def)

theorem format_transcript_mmss_witness:
  "0 \<le> get_start \<lparr>item_text = Some ''This is a test'', start = Some 65.5\<rparr>
   \<and> get_start \<lparr>item_text = Some ''This is a test'', start = Some 65.5\<rparr> < 6000
   \<and> format_transcript example_items
       = ''[00:00] Hello world'' @ [CHR 0x0A] @ ''[01:05] This is a test'' @ [CHR 0x0A]
         @ ''[99:59] Goodbye'' @ [CHR 0x0A]"
  using format_transcript_mmss [OF example_items_starts]
  by (simp add: example_items_def get_start_def get_text_def mmss_line_def digit_char_def)

section \<open>Text normalisation\<close>

lemma collapse_whitespace_Nil_iff: "collapse_whitespace s = [] \<longleftrightarrow> s = []"
  by (cases s) simp_all

lemma dropWhile_head: "dropWhile P xs = [] \<or> \<not> P (hd (dropWhile P xs))"
  using hd_dropWhile [of P xs] by blast

lemma collapse_whitespace_head:
  "s = [] \<or> \<not> is_space (hd s)
   \<Longrightarrow> collapse_whitespace s = [] \<or> \<not> is_space (hd (collapse_whitespace s))"
  by (cases s) auto

lemma single_spaced_space_Cons:
  "single_spaced r \<Longrightarrow> r = [] \<or> \<not> is_space (hd r) \<Longrightarrow> single_spaced (CHR '' '' # r)"
  by (cases r) auto

lemma single_spaced_collapse: "single_spaced (collapse_whitespace s)"
proof (induction s rule: collapse_whitespace.induct)
  case 1
  show ?case by simp
next
  case (2 c cs)
  show ?case
  proof (cases "is_space c")
    case True
    let ?r = "collapse_whitespace (dropWhile is_space cs)"
    from True 2 have ih: "single_spaced ?r" by simp
    have "?r = [] \<or> \<not> is_space (hd ?r)"
      by (rule collapse_whitespace_head) (rule dropWhile_head)
    with ih have "single_spaced (CHR '' '' # ?r)" by (rule single_spaced_space_Cons)
    moreover have "collapse_whitespace (c # cs) = CHR '' '' # ?r" using True by simp
    ultimately show ?thesis by (simp only:)
  next
    case False
    with 2 have ih: "single_spaced (collapse_whitespace cs)" by simp
    with False show ?thesis by (cases "collapse_whitespace cs") simp_all
  qed
qed

lemma collapse_single_spaced: "single_spaced s \<Longrightarrow> collapse_whitespace s = s"
  by (induction s rule: single_spaced.induct) auto

lemma single_spaced_tl: "single_spaced (a # s) \<Longrightarrow> single_spaced s"
  by (cases s) simp_all

lemma single_spaced_suffix: "single_spaced (xs @ ys) \<Longrightarrow> single_spaced ys"
  by (induction xs) (auto dest: single_spaced_tl)

lemma single_spaced_prefix: "single_spaced (xs @ ys) \<Longrightarrow> single_spaced xs"
proof (induction xs rule: single_spaced.induct)
  case 1
  show ?case by simp
next
  case (2 c)
  then show ?case by (cases ys) simp_all
next
  case (3 a b cs)
  then show ?case by simp
qed

lemma rev_dropWhile_takeWhile:
  "rev (dropWhile P (rev t)) @ rev (takeWhile P (rev t)) = t"
proof -
  have "rev (dropWhile P (rev t)) @ rev (takeWhile P (rev t))
          = rev (takeWhile P (rev t) @ dropWhile P (rev t))"
    by (simp only: rev_append)
  also have "\<dots> = t" by (simp only: takeWhile_dropWhile_id rev_rev_ident)
  finally show ?thesis .
qed

lemma strip_decompose:
  "\<exists>l r. s = l @ strip s @ r \<and> list_all is_space l \<and> list_all is_space r"
proof -
  let ?t = "dropWhile is_space s"
  let ?r = "rev (takeWhile is_space (rev ?t))"
  have "strip s @ ?r = ?t"
    unfolding strip_def by (rule rev_dropWhile_takeWhile)
  then have "takeWhile is_space s @ strip s @ ?r = s"
    by (simp only: takeWhile_dropWhile_id)
  moreover have "list_all is_space (takeWhile is_space s)"
    by (simp add: list_all_iff) (meson set_takeWhileD)
  moreover have "list_all is_space ?r"
    by (simp add: list_all_iff) (meson set_takeWhileD)
  ultimately show ?thesis by metis
qed

lemma single_spaced_strip: "single_spaced s \<Longrightarrow> single_spaced (strip s)"
  using strip_decompose [of s] by (metis single_spaced_prefix single_spaced_suffix)

lemma strip_ends:
  "strip s = [] \<or> (\<not> is_space (hd (strip s)) \<and> \<not> is_space (last (strip s)))"
proof (cases "strip s = []")
  case True
  then show ?thesis by simp
next
  case False
  let ?t = "dropWhile is_space s"
  let ?u = "dropWhile is_space (rev ?t)"
  have su: "strip s = rev ?u" by (simp only: strip_def)
  with False have u: "?u \<noteq> []" by (simp only: rev_is_Nil_conv not_False_eq_True)
  then have nu: "\<not> is_space (hd ?u)" by (rule hd_dropWhile)
  have lr: "last (rev ?u) = hd ?u" by (simp only: last_rev)
  have l: "\<not> is_space (last (strip s))"
    unfolding su lr by (rule nu)
  have t: "?t \<noteq> []"
  proof
    assume "?t = []"
    then have "?u = []" by (simp only: rev.simps dropWhile.simps)
    with u show False by (rule notE)
  qed
  then have h: "\<not> is_space (hd ?t)" by (rule hd_dropWhile)
  have "strip s @ rev (takeWhile is_space (rev ?t)) = ?t"
    unfolding strip_def by (rule rev_dropWhile_takeWhile)
  with False have "hd ?t = hd (strip s)" by (metis hd_append2)
  with h l show ?thesis by (simp only: simp_thms)
qed

lemma strip_trimmed:
  assumes "u = [] \<or> (\<not> is_space (hd u) \<and> \<not> is_space (last u))"
    and "list_all is_space l" and "list_all is_space r"
  shows "strip (l @ u @ r) = u"
proof (cases "u = []")
  case True
  with assms(2,3) have "\<forall>x \<in> set (l @ u @ r). is_space x"
    by (auto simp: list_all_iff)
  then have "dropWhile is_space (l @ u @ r) = []"
    by (simp only: dropWhile_eq_Nil_conv)
  then have "strip (l @ u @ r) = []"
    by (simp only: strip_def rev.simps dropWhile.simps)
  with True show ?thesis by (simp only:)
next
  case False
  with assms(1) have h: "\<not> is_space (hd u)" and e: "\<not> is_space (last u)" by simp_all
  from False h have "dropWhile is_space u = u" by (cases u) simp_all
  with False h assms(2) have 1: "dropWhile is_space (l @ u @ r) = u @ r"
    by (cases u) (simp_all add: dropWhile_append list_all_iff)
  from False e have "dropWhile is_space (rev u) = rev u"
    by (cases "rev u") (simp_all add: last_rev [symmetric] hd_rev)
  with assms(3) have "dropWhile is_space (rev r @ rev u) = rev u"
    by (simp add: dropWhile_append list_all_iff)
  with 1 show ?thesis by (simp add: strip_def)
qed

lemma strip_strip: "strip (strip s) = strip s"
  using strip_trimmed [OF strip_ends [of s], where l = "[]" and r = "[]"] by simp

lemma normalise_whitespace_idem:
  "strip (collapse_whitespace (strip (collapse_whitespace s))) = strip (collapse_whitespace s)"
proof -
  have "single_spaced (strip (collapse_whitespace s))"
    by (rule single_spaced_strip) (rule single_spaced_collapse)
  then have "collapse_whitespace (strip (collapse_whitespace s)) = strip (collapse_whitespace s)"
    by (rule collapse_single_spaced)
  then show ?thesis by (simp add: strip_strip)
qed

text \<open>
  C3, as stated, fails: deleting a marker can bring the pieces of another one together.
  The input \<open>[[00:00]00:00]\<close> normalises to \<open>[00:00]\<close>, which normalises to the empty
  string.
\<close>

theorem clean_transcript_idempotent_counterexample:
  "clean_transcript ''[[00:00]00:00]'' = ''[00:00]''
   \<and> clean_transcript (clean_transcript ''[[00:00]00:00]'') = []
   \<and> clean_transcript (clean_transcript ''[[00:00]00:00]'') \<noteq> clean_transcript ''[[00:00]00:00]''"
proof -
  have 1: "clean_transcript ''[[00:00]00:00]'' = ''[00:00]''" by code_simp
  have 2: "clean_transcript ''[00:00]'' = []" by code_simp
  from 1 2 show ?thesis by simp
qed

text \<open>
  C3, amended. Whenever the normalised text holds no timestamp marker, that is, removing
  markers from it changes nothing, normalising it again changes nothing:
  \<open>normalize(normalize(x)) == normalize(x)\<close>.
\<close>

theorem clean_transcript_idempotent:
  assumes "remove_timestamps (clean_transcript x) = clean_transcript x"
  shows "clean_transcript (clean_transcript x) = clean_transcript x"
proof -
  have "clean_transcript (clean_transcript x)
          = strip (collapse_whitespace (clean_transcript x))"
    by (simp add: clean_transcript_def [of "clean_transcript x"] assms)
  also have "\<dots> = clean_transcript x"
    by (simp add: clean_transcript_def normalise_whitespace_idem)
  finally show ?thesis .
qed

lemma clean_example:
  "clean_transcript
     (''[00:00] Hello world'' @ [CHR 0x0A] @ ''[00:05] This is a test'' @ [CHR 0x0A]
      @ ''[00:10] Goodbye'' @ [CHR 0x0A])
     = ''Hello world This is a test Goodbye''"
  by code_simp

lemma remove_timestamps_example:
  "remove_timestamps ''Hello world This is a test Goodbye''
     = ''Hello world This is a test Goodbye''"
  by code_simp

theorem clean_transcript_idempotent_witness:
  "remove_timestamps (clean_transcript
     (''[00:00] Hello world'' @ [CHR 0x0A] @ ''[00:05] This is a test'' @ [CHR 0x0A]
      @ ''[00:10] Goodbye'' @ [CHR 0x0A]))
     = clean_transcript
         (''[00:00] Hello world'' @ [CHR 0x0A] @ ''[00:05] This is a test'' @ [CHR 0x0A]
          @ ''[00:10] Goodbye'' @ [CHR 0x0A])
   \<and> clean_transcript ''Hello world This is a test Goodbye''
     = ''Hello world This is a test Goodbye''"
  using clean_transcript_idempotent
    [of "''[00:00] Hello world'' @ [CHR 0x0A] @ ''[00:05] This is a test'' @ [CHR 0x0A]
         @ ''[00:10] Goodbye'' @ [CHR 0x0A]"]
  by (simp only: clean_example remove_timestamps_example simp_thms)

lemma expect_append:
  "s \<noteq> [] \<Longrightarrow> expect c (s @ t) = map_option (\<lambda>r. r @ t) (expect c s)"
  by (cases s) (simp_all add: expect_def)

lemma expect_before_bracket:
  "c \<noteq> CHR ''[''
   \<Longrightarrow> expect c (s @ CHR ''['' # y) = map_option (\<lambda>r. r @ CHR ''['' # y) (expect c s)"
  by (cases s) (simp_all add: expect_def)

lemma digits1_before_bracket:
  "digits1 (s @ CHR ''['' # y) = map_option (\<lambda>r. r @ CHR ''['' # y) (digits1 s)"
proof (cases s)
  case Nil
  then show ?thesis by (simp add: digits1_def is_digit_def)
next
  case (Cons x xs)
  have "\<not> is_digit CHR ''[''" by (simp add: is_digit_def)
  then have "dropWhile is_digit (xs @ CHR ''['' # y) = dropWhile is_digit xs @ CHR ''['' # y"
    by (simp add: dropWhile_append)
  with Cons show ?thesis by (simp add: digits1_def)
qed

lemma match_timestamp_before_bracket:
  assumes "s \<noteq> []"
  shows "match_timestamp (s @ CHR ''['' # y)
           = map_option (\<lambda>r. r @ CHR ''['' # y) (match_timestamp s)"
proof -
  let ?t = "CHR ''['' # y"
  have 1: "expect CHR ''['' (s @ ?t) = map_option (\<lambda>r. r @ ?t) (expect CHR ''['' s)"
    using assms by (rule expect_append)
  have 2: "map_option (\<lambda>r. r @ ?t) a \<bind> digits1 = map_option (\<lambda>r. r @ ?t) (a \<bind> digits1)"
    for a by (cases a) (simp_all add: digits1_before_bracket)
  have 3: "map_option (\<lambda>r. r @ ?t) a \<bind> expect c = map_option (\<lambda>r. r @ ?t) (a \<bind> expect c)"
    if "c \<noteq> CHR ''[''" for a c
    using that by (cases a) (simp_all add: expect_before_bracket)
  show ?thesis
    unfolding match_timestamp_def 1 by (simp add: 2 3)
qed

lemma remove_timestamps_before_text:
  assumes "t = CHR ''['' # y"
  shows "remove_timestamps (pre @ t) = remove_timestamps pre @ remove_timestamps t"
proof (induction pre rule: remove_timestamps.induct)
  case 1
  show ?case by simp
next
  case (2 c cs)
  have m: "match_timestamp (c # cs @ t) = map_option (\<lambda>r. r @ t) (match_timestamp (c # cs))"
    using match_timestamp_before_bracket [of "c # cs" y] by (simp add: assms)
  show ?case
  proof (cases "match_timestamp (c # cs)")
    case None
    with m have "match_timestamp (c # cs @ t) = None" by simp
    with None "2.IH" show ?thesis by simp
  next
    case (Some rest)
    with m have "match_timestamp (c # cs @ t) = Some (rest @ t)" by simp
    with Some "2.IH" show ?thesis by simp
  qed
qed

lemma remove_timestamps_before_bracket:
  "remove_timestamps (pre @ CHR ''['' # y)
     = remove_timestamps pre @ remove_timestamps (CHR ''['' # y)"
  by (rule remove_timestamps_before_text) (rule refl)

lemma match_timestamp_mmss:
  assumes "is_mmss_marker m"
  shows "\<exists>m'. m = CHR ''['' # m' \<and> match_timestamp (m @ post) = Some post"
proof -
  from assms obtain m1 m2 s1 s2 where
    m: "m = [CHR ''['', m1, m2, CHR '':'', s1, s2, CHR '']'']"
    and d: "is_digit m1" "is_digit m2" "is_digit s1" "is_digit s2"
    by (auto simp: is_mmss_marker_def split: list.splits)
  have n: "\<not> is_digit CHR '':''" "\<not> is_digit CHR '']''" by (simp_all add: is_digit_def)
  have "match_timestamp (m @ post) = Some post"
    by (simp add: m match_timestamp_def expect_def digits1_def d n)
  with m show ?thesis by simp
qed

lemma remove_timestamps_marker:
  assumes "is_mmss_marker m"
  shows "remove_timestamps (pre @ m @ post) = remove_timestamps pre @ remove_timestamps post"
proof -
  from match_timestamp_mmss [OF assms] obtain m' where
    m: "m = CHR ''['' # m'" and p: "match_timestamp (m @ post) = Some post"
    by blast
  from p have "remove_timestamps (CHR ''['' # m' @ post) = remove_timestamps post"
    by (simp add: m)
  moreover have "remove_timestamps (pre @ CHR ''['' # m' @ post)
          = remove_timestamps pre @ remove_timestamps (CHR ''['' # m' @ post)"
    by (rule remove_timestamps_before_bracket)
  ultimately show ?thesis by (simp add: m)
qed

lemma collapse_whitespace_run:
  assumes "ws \<noteq> []" and "list_all is_space ws"
    and "u = [] \<or> \<not> is_space (last u)" and "v = [] \<or> \<not> is_space (hd v)"
  shows "collapse_whitespace (u @ ws @ v)
           = collapse_whitespace u @ CHR '' '' # collapse_whitespace v"
  using assms(3)
proof (induction u rule: collapse_whitespace.induct)
  case 1
  from assms(1) obtain w ws' where ws: "ws = w # ws'" by (cases ws) auto
  with assms(2) have w: "is_space w" and a: "\<forall>x \<in> set ws'. is_space x"
    by (simp_all add: list_all_iff)
  from assms(4) have "dropWhile is_space v = v" by (cases v) auto
  with a have "dropWhile is_space (ws' @ v) = v" by (simp add: dropWhile_append)
  with w show ?case by (simp add: ws)
next
  case (2 c cs)
  show ?case
  proof (cases "is_space c")
    case True
    with 2(3) have ne: "cs \<noteq> []" by auto
    with 2(3) have l: "\<not> is_space (last cs)" by simp
    with ne have ex: "\<not> (\<forall>x \<in> set cs. is_space x)" using last_in_set by blast
    have d: "dropWhile is_space (cs @ ws @ v) = dropWhile is_space cs @ ws @ v"
      using last_in_set [OF ne] l by (rule dropWhile_append1)
    from ex have dn: "dropWhile is_space cs \<noteq> []" by (simp add: dropWhile_eq_Nil_conv)
    have "cs = takeWhile is_space cs @ dropWhile is_space cs" by simp
    with dn have "last cs = last (dropWhile is_space cs)" by (metis last_appendR)
    with l have "\<not> is_space (last (dropWhile is_space cs))" by simp
    then have "collapse_whitespace (dropWhile is_space cs @ ws @ v)
                 = collapse_whitespace (dropWhile is_space cs)
                   @ CHR '' '' # collapse_whitespace v"
      using 2(1) [OF True] by simp
    with True d show ?thesis by simp
  next
    case False
    from 2(3) have "cs = [] \<or> \<not> is_space (last cs)" by (cases cs) auto
    then have "collapse_whitespace (cs @ ws @ v)
                 = collapse_whitespace cs @ CHR '' '' # collapse_whitespace v"
      using 2(2) [OF False] by simp
    with False show ?thesis by simp
  qed
qed

lemma collapse_whitespace_word:
  "list_all (\<lambda>c. \<not> is_space c) u \<Longrightarrow> collapse_whitespace u = u"
  by (induction u) simp_all

text \<open>
  C4. \<open>clean_transcript\<close> is marker removal, then whitespace collapsing, then trimming:
  every \<open>[MM:SS]\<close> marker of the input disappears, whatever stands before and after
  it; every run of whitespace between two texts becomes one space, and text without
  whitespace is left as it is; leading and trailing whitespace is cut off. The
  specification's example normalises to \<open>Hello world This is a test Goodbye\<close>.
\<close>

theorem clean_transcript_normalises:
  "clean_transcript x = strip (collapse_whitespace (remove_timestamps x))
   \<and> (is_mmss_marker m \<longrightarrow>
        remove_timestamps (pre @ m @ post) = remove_timestamps pre @ remove_timestamps post)
   \<and> (ws \<noteq> [] \<and> list_all is_space ws \<and> (u = [] \<or> \<not> is_space (last u))
        \<and> (v = [] \<or> \<not> is_space (hd v)) \<longrightarrow>
        collapse_whitespace (u @ ws @ v)
          = collapse_whitespace u @ CHR '' '' # collapse_whitespace v)
   \<and> (list_all (\<lambda>c. \<not> is_space c) t \<longrightarrow> collapse_whitespace t = t)
   \<and> (list_all is_space l \<and> list_all is_space r
        \<and> (b = [] \<or> (\<not> is_space (hd b) \<and> \<not> is_space (last b))) \<longrightarrow>
        strip (l @ b @ r) = b)
   \<and> clean_transcript
        (''[00:00] Hello world'' @ [CHR 0x0A] @ ''[00:05] This is a test'' @ [CHR 0x0A]
         @ ''[00:10] Goodbye'' @ [CHR 0x0A])
       = ''Hello world This is a test Goodbye''"
proof (intro conjI impI)
  show "clean_transcript x = strip (collapse_whitespace (remove_timestamps x))"
    by (rule clean_transcript_def)
next
  assume "is_mmss_marker m"
  then show "remove_timestamps (pre @ m @ post)
               = remove_timestamps pre @ remove_timestamps post"
    by (rule remove_timestamps_marker)
next
  assume "ws \<noteq> [] \<and> list_all is_space ws \<and> (u = [] \<or> \<not> is_space (last u))
            \<and> (v = [] \<or> \<not> is_space (hd v))"
  then show "collapse_whitespace (u @ ws @ v)
               = collapse_whitespace u @ CHR '' '' # collapse_whitespace v"
    by (intro collapse_whitespace_run) simp_all
next
  assume "list_all (\<lambda>c. \<not> is_space c) t"
  then show "collapse_whitespace t = t" by (rule collapse_whitespace_word)
next
  assume "list_all is_space l \<and> list_all is_space r
            \<and> (b = [] \<or> (\<not> is_space (hd b) \<and> \<not> is_space (last b)))"
  then show "strip (l @ b @ r) = b"
    by (intro strip_trimmed) simp_all
next
  show "clean_transcript
          (''[00:00] Hello world'' @ [CHR 0x0A] @ ''[00:05] This is a test'' @ [CHR 0x0A]
           @ ''[00:10] Goodbye'' @ [CHR 0x0A])
          = ''Hello world This is a test Goodbye''"
    by code_simp
qed

lemma normalise_example_facts:
  "is_mmss_marker ''[00:05]''"
  "list_all is_space ([CHR 0x0A] @ ''  '')"
  "\<not> is_space (last ''world'')" "\<not> is_space (hd ''This'')"
  "list_all (\<lambda>c. \<not> is_space c) ''Goodbye''"
  "list_all is_space ''  ''" "list_all is_space [CHR 0x0A]"
  "\<not> is_space (hd ''Hello world'')" "\<not> is_space (last ''Hello world'')"
  by (simp_all add: is_mmss_marker_def is_digit_def is_space_def)

theorem clean_transcript_normalises_witness:
  "is_mmss_marker ''[00:05]''
   \<and> remove_timestamps (''Hello '' @ ''[00:05]'' @ '' world'')
       = remove_timestamps ''Hello '' @ remove_timestamps '' world''
   \<and> list_all is_space ([CHR 0x0A] @ ''  '')
   \<and> collapse_whitespace (''world'' @ ([CHR 0x0A] @ ''  '') @ ''This'')
       = collapse_whitespace ''world'' @ CHR '' '' # collapse_whitespace ''This''
   \<and> list_all (\<lambda>c. \<not> is_space c) ''Goodbye''
   \<and> collapse_whitespace ''Goodbye'' = ''Goodbye''
   \<and> list_all is_space ''  '' \<and> list_all is_space [CHR 0x0A]
   \<and> strip (''  '' @ ''Hello world'' @ [CHR 0x0A]) = ''Hello world''"
  using clean_transcript_normalises
    [of _ "''[00:05]''" "''Hello ''" "'' world''" "[CHR 0x0A] @ ''  ''" "''world''" "''This''"
        "''Goodbye''" "''  ''" "[CHR 0x0A]" "''Hello world''"]
    normalise_example_facts
  by simp

end
